theory Spec2Isabelle
  imports Complex_Main "HOL-Library.Multiset"
begin

section \<open>The wager ledger of src/app/page.tsx (positive-only odds)\<close>

text \<open>
  A JavaScript number is an IEEE 754 double. The definitions below compute with exact
  rationals. Each operation of the code (\<open>+\<close>, \<open>*\<close>, \<open>/\<close>) returns the exact result
  rounded to the nearest double, so the code computes what a definition computes on
  every run in which the inputs are doubles and each exact intermediate result is a
  double again; on other runs the code's result is rounded and differs. The predicate
  \<open>is_double\<close> and the \<open>exact...\<close> predicates of the section on exact runs say which
  runs these are, and every theorem that gives the value of a sum, a product or a
  quotient assumes them. Negation and comparison are exact. Strings are \<open>string\<close>; an
  optional field (\<open>result?\<close>, \<open>created_at?\<close>) is an \<open>option\<close>, with \<open>None\<close> for both
  \<open>null\<close> and \<open>undefined\<close>.
\<close>

datatype Status = Open | Resolved

datatype Result = From | To | Push

record Wager =
  id_w :: string
  from_user :: string
  to_user :: string
  amount :: rat
  odds :: rat
  description :: string
  status :: Status
  result :: "Result option"
  created_by :: "string option"
  created_at :: "string option"
  updated_at :: "string option"

text \<open>\<open>calculateUserExposure\<close>: filter, then reduce from 0.\<close>

definition calculateUserExposure :: "Wager list \<Rightarrow> string \<Rightarrow> rat" where
  "calculateUserExposure wagers user =
     foldl (\<lambda>total wager. total + amount wager * (odds wager / 100)) 0
       (filter (\<lambda>wager. from_user wager = user \<and> status wager = Open) wagers)"

text \<open>An open wager \<open>f \<rightarrow> t\<close> with no timestamps, for the concrete cases below.\<close>

definition mkWager :: "string \<Rightarrow> string \<Rightarrow> string \<Rightarrow> rat \<Rightarrow> rat \<Rightarrow> Wager" where
  "mkWager i f t a od =
     \<lparr>id_w = i, from_user = f, to_user = t, amount = a, odds = od,
      description = ''bet'', status = Open, result = None,
      created_by = None, created_at = None, updated_at = None\<rparr>"

text \<open>The stored row after the resolve update \<open>{status: 'resolved', result}\<close>.\<close>

definition resolveWith :: "Wager \<Rightarrow> Result \<Rightarrow> Wager" where
  "resolveWith w r = w\<lparr>status := Resolved, result := Some r\<rparr>"

text \<open>\<open>getWagersBetweenUsers\<close>: both directions, optionally open wagers only.\<close>

definition getWagersBetweenUsers :: "Wager list \<Rightarrow> string \<Rightarrow> string \<Rightarrow> bool \<Rightarrow> Wager list" where
  "getWagersBetweenUsers wagers user1 user2 openOnly =
     filter (\<lambda>wager.
        ((from_user wager = user1 \<and> to_user wager = user2) \<or>
         (from_user wager = user2 \<and> to_user wager = user1)) \<and>
        (\<not> openOnly \<or> status wager = Open)) wagers"

text \<open>\<open>getCellData\<close>: the directional cell, returned as \<open>{amount, count}\<close>.\<close>

record CellData =
  amount_c :: rat
  count_c :: nat

definition getCellData :: "Wager list \<Rightarrow> string \<Rightarrow> string \<Rightarrow> CellData" where
  "getCellData wagers fromUser toUser =
     (let userWagers =
            filter (\<lambda>w. from_user w = fromUser \<and> to_user w = toUser \<and> status w = Open) wagers;
          totalAmount = foldl (\<lambda>sum wager. sum + amount wager) 0 userWagers
      in \<lparr>amount_c = totalAmount, count_c = length userWagers\<rparr>)"


text \<open>\<open>calculateUserRecord\<close>: the three counters of the loop are one record.\<close>

record UserRecord =
  wins :: nat
  losses :: nat
  pushes :: nat

definition calculateUserRecord :: "Wager list \<Rightarrow> string \<Rightarrow> UserRecord" where
  "calculateUserRecord wagers user =
     (let resolved =
            filter (\<lambda>w. status w = Resolved \<and> (from_user w = user \<or> to_user w = user)) wagers
      in foldl (\<lambda>r wager.
           if result wager = Some Push then r\<lparr>pushes := pushes r + 1\<rparr>
           else if from_user wager = user
           then (if result wager = Some From then r\<lparr>wins := wins r + 1\<rparr>
                 else r\<lparr>losses := losses r + 1\<rparr>)
           else (if result wager = Some To then r\<lparr>wins := wins r + 1\<rparr>
                 else r\<lparr>losses := losses r + 1\<rparr>))
         \<lparr>wins = 0, losses = 0, pushes = 0\<rparr> resolved)"

text \<open>The roster, the heatmap thresholds and the classifier of src/app/page.tsx.\<close>

definition USERS :: "string list" where
  "USERS = [''Chas'', ''Clay'', ''Craig'', ''Daniel'', ''John'', ''Matt'', ''Nick'',
            ''Ryan'', ''Sean'', ''Ted'', ''Trey'', ''Will'', ''Zac'']"

record HeatmapThresholds =
  low :: rat
  medium :: rat

definition getCellHeatmapClass :: "rat \<Rightarrow> HeatmapThresholds \<Rightarrow> string" where
  "getCellHeatmapClass amt thresholds =
     (if amt = 0 then ''''
      else if amt \<le> low thresholds then ''heat-low''
      else if amt \<le> medium thresholds then ''heat-medium''
      else ''heat-high'')"

text \<open>The nested loop of \<open>heatmapThresholds\<close> that collects the positive cell amounts.\<close>

definition heatmapAmounts :: "Wager list \<Rightarrow> rat list" where
  "heatmapAmounts wagers =
     concat (map (\<lambda>rowUser. concat (map (\<lambda>colUser.
         if rowUser \<noteq> colUser
         then (let amt = amount_c (getCellData wagers rowUser colUser)
               in if amt > 0 then [amt] else [])
         else []) USERS)) USERS)"

text \<open>
  \<open>amounts[i] || d\<close>: an index out of range reads \<open>undefined\<close>, which is falsy, as is 0.
\<close>

definition js_index :: "rat list \<Rightarrow> nat \<Rightarrow> rat option" where
  "js_index xs i = (if i < length xs then Some (xs ! i) else None)"

definition js_or :: "rat option \<Rightarrow> rat \<Rightarrow> rat" where
  "js_or v d = (case v of None \<Rightarrow> d | Some x \<Rightarrow> if x = 0 then d else x)"

text \<open>The rest of \<open>heatmapThresholds\<close>, from the collected amounts.\<close>

definition thresholdsOf :: "rat list \<Rightarrow> HeatmapThresholds" where
  "thresholdsOf amounts =
     (if length amounts = 0 then \<lparr>low = 0, medium = 0\<rparr>
      else
        (let amounts' = sort amounts;
             lowIndex = length amounts' div 3;
             medIndex = (length amounts' * 2) div 3
         in \<lparr>low = js_or (js_index amounts' lowIndex) (amounts' ! 0),
             medium = js_or (js_index amounts' medIndex)
                        (js_or (js_index amounts' lowIndex) (amounts' ! 0))\<rparr>))"

definition heatmapThresholds :: "Wager list \<Rightarrow> HeatmapThresholds" where
  "heatmapThresholds wagers = thresholdsOf (heatmapAmounts wagers)"

text \<open>Five open wagers on five different ordered pairs: cells 10, 10, 100, 30, 20.\<close>

definition heatmapExample :: "Wager list" where
  "heatmapExample =
     [mkWager ''1'' ''Chas'' ''Clay'' 10 100, mkWager ''2'' ''Clay'' ''Chas'' 10 100,
      mkWager ''3'' ''Craig'' ''Daniel'' 100 100, mkWager ''4'' ''John'' ''Matt'' 30 100,
      mkWager ''5'' ''Nick'' ''Ryan'' 20 100]"

text \<open>
  \<open>deriveActivityItems\<close>. Two things come from outside the page and are parameters.
  \<open>getTime s\<close> is \<open>new Date(s).getTime()\<close>: \<open>Some\<close> of the milliseconds, or \<open>None\<close>
  for the \<open>NaN\<close> of a string that does not parse as a date. \<open>clock k\<close> is what the
  \<open>k\<close>-th call of \<open>new Date().toISOString()\<close> returns (counting from 0): every call
  reads the clock anew, so the loop carries the number of reads made so far.
  \<open>activityStep\<close> is the loop body on the state (activities, reads) and
  \<open>activitiesOf\<close> the loop.
\<close>

datatype ActivityType = Created | Resolved_a

datatype ActivityResult = Win | Loss | Push_a

record ActivityItem =
  id_a :: string
  type_a :: ActivityType
  user_a :: string
  opponent :: string
  result_a :: "ActivityResult option"
  timestamp :: string
  description_a :: string

text \<open>A string is truthy when it is present and not empty; \<open>v || d\<close> on strings.\<close>

definition truthy :: "string option \<Rightarrow> bool" where
  "truthy v = (case v of None \<Rightarrow> False | Some s \<Rightarrow> s \<noteq> [])"

definition js_or_str :: "string option \<Rightarrow> string \<Rightarrow> string" where
  "js_or_str v d = (if truthy v then the v else d)"

text \<open>
  The wagers for which the loop body reaches \<open>new Date().toISOString()\<close>: the resolved
  branch is taken and both \<open>updated_at\<close> and \<open>created_at\<close> are falsy.
\<close>

definition readsClock :: "Wager \<Rightarrow> bool" where
  "readsClock wager =
     (status wager = Resolved \<and> result wager \<noteq> None
      \<and> \<not> truthy (updated_at wager) \<and> \<not> truthy (created_at wager))"

definition activityStep ::
  "(nat \<Rightarrow> string) \<Rightarrow> ActivityItem list \<times> nat \<Rightarrow> Wager \<Rightarrow> ActivityItem list \<times> nat" where
  "activityStep clock st wager =
     (let activities = fst st;
          reads = snd st;
          activities1 =
            (if truthy (created_at wager)
             then activities @
               [\<lparr>id_a = id_w wager @ ''-created'', type_a = Created,
                 user_a = from_user wager, opponent = to_user wager, result_a = None,
                 timestamp = the (created_at wager), description_a = description wager\<rparr>]
             else activities)
      in if status wager = Resolved \<and> result wager \<noteq> None
         then
           (let resultText =
                  (if result wager = Some Push then Push_a
                   else if result wager = Some From then Win else Loss)
            in (activities1 @
                  [\<lparr>id_a = id_w wager @ ''-resolved'', type_a = Resolved_a,
                    user_a = from_user wager, opponent = to_user wager,
                    result_a = Some resultText,
                    timestamp = js_or_str (updated_at wager)
                                  (js_or_str (created_at wager) (clock reads)),
                    description_a = description wager\<rparr>],
                if readsClock wager then Suc reads else reads))
         else (activities1, reads))"

definition activitiesOf :: "(nat \<Rightarrow> string) \<Rightarrow> Wager list \<Rightarrow> ActivityItem list" where
  "activitiesOf clock wagers = fst (foldl (activityStep clock) ([], 0) wagers)"

text \<open>
  The sort and the slice. The comparator is \<open>getTime b - getTime a\<close>; the sort is
  stable, so with numeric times it is the stable sort on the negated time. When a
  timestamp does not parse, the comparator returns \<open>NaN\<close> and the order of the result
  is left to the implementation: the model then gives \<open>None\<close> (no order is promised),
  unless there is at most one activity, which no comparator call can reorder.
\<close>

definition deriveActivityItems ::
  "(string \<Rightarrow> int option) \<Rightarrow> (nat \<Rightarrow> string) \<Rightarrow> Wager list \<Rightarrow> ActivityItem list option" where
  "deriveActivityItems getTime clock wagers =
     (let activities = activitiesOf clock wagers
      in if length activities \<le> 1 \<or> list_all (\<lambda>a. getTime (timestamp a) \<noteq> None) activities
         then Some (take 8 (sort_key (\<lambda>a. - the (getTime (timestamp a))) activities))
         else None)"

text \<open>A stored row with both timestamps set.\<close>

definition stamped :: "Wager \<Rightarrow> string \<Rightarrow> string \<Rightarrow> Wager" where
  "stamped w c u = w\<lparr>created_at := Some c, updated_at := Some u\<rparr>"

section \<open>The in-memory variant with signed odds (third file of src/unnamed/part_000)\<close>

text \<open>
  Its \<open>Wager\<close> has the fields \<open>id, from, to, amount, odds, description, status,
  result\<close>; the functions read \<open>odds\<close> as a signed number.
\<close>

record Wager_s =
  id_s :: string
  from_s :: string
  to_s :: string
  amount_s :: rat
  odds_s :: rat
  description_s :: string
  status_s :: Status
  result_s :: "Result option"

definition getOddsMultiplier :: "rat \<Rightarrow> rat" where
  "getOddsMultiplier od = (if od < 0 then 1 else 1 + od / 100)"

definition calculateUserExposure_s :: "Wager_s list \<Rightarrow> string \<Rightarrow> rat" where
  "calculateUserExposure_s wagers user =
     foldl (\<lambda>total wager. total + amount_s wager * getOddsMultiplier (odds_s wager)) 0
       (filter (\<lambda>wager. from_s wager = user \<and> status_s wager = Open) wagers)"


text \<open>\<open>handleResolveWager\<close>: the state update \<open>prev.map(...)\<close> as a function of \<open>prev\<close>.\<close>

definition handleResolveWager :: "Wager_s list \<Rightarrow> string \<Rightarrow> Result \<Rightarrow> Wager_s list" where
  "handleResolveWager prev wagerId r =
     map (\<lambda>wager. if id_s wager = wagerId
                   then wager\<lparr>status_s := Resolved, result_s := Some r\<rparr>
                   else wager) prev"

definition mkWager_s :: "string \<Rightarrow> string \<Rightarrow> string \<Rightarrow> rat \<Rightarrow> rat \<Rightarrow> Wager_s" where
  "mkWager_s i f t a od =
     \<lparr>id_s = i, from_s = f, to_s = t, amount_s = a, odds_s = od,
      description_s = ''bet'', status_s = Open, result_s = None\<rparr>"

section \<open>Exact runs\<close>

text \<open>
  The finite doubles (binary64): \<open>m \<times> 2\<^sup>e\<close> with \<open>|m| < 2\<^sup>5\<^sup>3\<close> and
  \<open>-1074 \<le> e \<le> 971\<close>.
\<close>

definition is_double :: "rat \<Rightarrow> bool" where
  "is_double x =
     (\<exists>e\<in>{- 1074 .. 971}. \<exists>m\<in>{- (2 ^ 53) <..< 2 ^ 53}. x = of_int m * 2 powi e)"

text \<open>
  Every running total of a reduce over \<open>ws\<close> is a double: the totals are the values of
  the function on the prefixes \<open>take k ws\<close>.
\<close>

definition exactTotals :: "('w list \<Rightarrow> rat) \<Rightarrow> 'w list \<Rightarrow> bool" where
  "exactTotals f ws = (\<forall>k\<in>set [0..<Suc (length ws)]. is_double (f (take k ws)))"

text \<open>
  The runs of each function in which no operation rounds: the operands read from the
  wagers it visits are doubles, and so is the exact result of every division,
  multiplication and addition it performs.
\<close>

definition exactExposure :: "Wager list \<Rightarrow> string \<Rightarrow> bool" where
  "exactExposure ws u =
     ((\<forall>w\<in>set ws. from_user w = u \<and> status w = Open \<longrightarrow>
         is_double (amount w) \<and> is_double (odds w) \<and> is_double (odds w / 100)
         \<and> is_double (amount w * (odds w / 100)))
      \<and> exactTotals (\<lambda>p. calculateUserExposure p u) ws)"



definition exactExposure_s :: "Wager_s list \<Rightarrow> string \<Rightarrow> bool" where
  "exactExposure_s ws u =
     ((\<forall>w\<in>set ws. from_s w = u \<and> status_s w = Open \<longrightarrow>
         is_double (amount_s w) \<and> is_double (odds_s w)
         \<and> (0 \<le> odds_s w \<longrightarrow>
              is_double (odds_s w / 100) \<and> is_double (1 + odds_s w / 100))
         \<and> is_double (amount_s w * getOddsMultiplier (odds_s w)))
      \<and> exactTotals (\<lambda>p. calculateUserExposure_s p u) ws)"


section \<open>Shared lemmas\<close>

lemma is_doubleI:
  assumes "- 1074 \<le> e" and "e \<le> 971" and "\<bar>m\<bar> < 2 ^ 53" and "x = of_int m * 2 powi e"
  shows "is_double x"
  unfolding is_double_def using assms by (intro bexI [of _ e] bexI [of _ m]) auto

lemma is_double_zero: "is_double 0"
  by (rule is_doubleI [of 0 0]) simp_all

lemma is_double_one: "is_double 1"
  by (rule is_doubleI [of 0 1]) simp_all

lemma is_double_numeral: "(numeral k :: int) < 2 ^ 53 \<Longrightarrow> is_double (numeral k)"
  by (rule is_doubleI [of 0 "numeral k"]) simp_all

lemma is_double_half: "(numeral k :: int) < 2 ^ 53 \<Longrightarrow> is_double (numeral k / 2)"
  by (rule is_doubleI [of "- 1" "numeral k"]) (simp_all add: power_int_minus field_simps)

lemma is_double_one_half: "is_double (1 / 2)"
  by (rule is_doubleI [of "- 1" 1]) (simp_all add: power_int_minus field_simps)

lemma is_double_uminus: "is_double x \<Longrightarrow> is_double (- x)"
proof -
  assume "is_double x"
  then obtain e m where e: "e \<in> {- 1074 .. 971}" and m: "m \<in> {- (2 ^ 53) <..< 2 ^ 53}"
    and x: "x = of_int m * 2 powi e"
    unfolding is_double_def by blast
  from e have e1: "- 1074 \<le> e" and e2: "e \<le> 971" by simp_all
  from m have m1: "\<bar>- m\<bar> < 2 ^ 53" by (simp add: abs_less_iff)
  from x have "- x = of_int (- m) * 2 powi e" by simp
  with e1 e2 m1 show ?thesis by (rule is_doubleI)
qed

lemma is_double_minus: "is_double (- x) = is_double x"
  using is_double_uminus [of x] is_double_uminus [of "- x"] by auto

lemmas is_double_simps =
  is_double_zero is_double_one is_double_numeral is_double_half is_double_one_half
  is_double_minus

lemma pow2_mod5: "(2::int) ^ n mod 5 \<in> {1, 2, 3, 4}"
proof (induction n)
  case 0
  show ?case by simp
next
  case (Suc n)
  have step: "(2::int) ^ Suc n mod 5 = (2 * (2 ^ n mod 5)) mod 5"
    by (simp add: mod_mult_right_eq)
  from Suc.IH show ?case unfolding step by auto
qed

lemma not_double_11_10: "\<not> is_double (11 / 10)"
proof
  assume "is_double (11 / 10)"
  then obtain e m where x: "(11 / 10 :: rat) = of_int m * 2 powi e"
    unfolding is_double_def by blast
  show False
  proof (cases "0 \<le> e")
    case True
    then have p: "2 powi e = (of_int (2 ^ nat e) :: rat)" by (simp add: power_int_def)
    from x have "(11 :: rat) = 10 * (of_int m * 2 powi e)" by simp
    then have "(of_int 11 :: rat) = of_int (10 * (m * 2 ^ nat e))" unfolding p by simp
    then have "(11::int) = 10 * (m * 2 ^ nat e)" by (simp only: of_int_eq_iff)
    then have "(11::int) mod 2 = (10 * (m * 2 ^ nat e)) mod 2" by simp
    then show False by simp
  next
    case False
    then have p: "2 powi e = (1 / of_int (2 ^ nat (- e)) :: rat)"
      by (simp add: power_int_def field_simps)
    have nz: "(of_int (2 ^ nat (- e)) :: rat) \<noteq> 0" by simp
    from x have "(11 :: rat) * of_int (2 ^ nat (- e)) = 10 * of_int m"
      unfolding p using nz by (simp add: field_simps)
    then have "(of_int (11 * 2 ^ nat (- e)) :: rat) = of_int (10 * m)" by simp
    then have eq: "(11::int) * 2 ^ nat (- e) = 10 * m" by (simp only: of_int_eq_iff)
    have "((11::int) * 2 ^ nat (- e)) mod 5 = ((11 mod 5) * (2 ^ nat (- e) mod 5)) mod 5"
      by (simp only: mod_mult_eq)
    also have "\<dots> = (2 ^ nat (- e) mod 5) mod 5" by simp
    also have "\<dots> = 2 ^ nat (- e) mod 5" by simp
    finally have l: "((11::int) * 2 ^ nat (- e)) mod 5 = 2 ^ nat (- e) mod 5" .
    have r: "(10 * m) mod 5 = 0" by simp
    from l r eq have "(2::int) ^ nat (- e) mod 5 = 0" by simp
    with pow2_mod5 [of "nat (- e)"] show False by simp
  qed
qed

text \<open>
  A run that rounds is not an exact run: 110/100 is not a double, so a wager of 100 at
  +110 is outside the theorems on sums.
\<close>

lemma exactExposure_excludes_rounding:
  "\<not> exactExposure [mkWager ''1'' ''A'' ''B'' 100 110] ''A''"
  using not_double_11_10 by (simp add: exactExposure_def mkWager_def)

lemma foldl_add_sum_list:
  fixes f :: "'a \<Rightarrow> rat"
  shows "foldl (\<lambda>total w. total + f w) a xs = a + sum_list (map f xs)"
  by (induction xs arbitrary: a) (simp_all add: add.assoc)



section \<open>Exposure\<close>




text \<open>
  The multiplier 1 + odds/100 is that of the signed-odds variant, for odds \<ge> 0: there
  the same wager gives exposure 300, and the run is exact.
\<close>

lemma calculateUserExposure_s_scenario:
  "exactExposure_s [mkWager_s ''1'' ''A'' ''B'' 100 200] ''A''
   \<and> calculateUserExposure_s [mkWager_s ''1'' ''A'' ''B'' 100 200] ''A'' = 300"
  by (simp add: exactExposure_s_def exactTotals_def calculateUserExposure_s_def
      getOddsMultiplier_def mkWager_s_def is_double_simps)

section \<open>Realized returns\<close>






lemma doubleton_dir:
  "({a, b} = {c, d}) = ((a = c \<and> b = d) \<or> (a = d \<and> b = c))"
  by (auto simp: doubleton_eq_iff)

section \<open>Cells and lookups\<close>



text \<open>
  C7: for every wager collection and users A, B, between(A,B) without the open-only
  filter is exactly the wagers with {from_user, to_user} = {A, B}, in either direction
  and either status: the wagers A\<rightarrow>B together with the wagers B\<rightarrow>A; with
  openOnly = true it is exactly those of them whose status is open.
\<close>

theorem C7_between:
  "getWagersBetweenUsers ws A B False = filter (\<lambda>w. {from_user w, to_user w} = {A, B}) ws
   \<and> set (getWagersBetweenUsers ws A B False) =
       {w \<in> set ws. from_user w = A \<and> to_user w = B} \<union> {w \<in> set ws. from_user w = B \<and> to_user w = A}
   \<and> getWagersBetweenUsers ws A B True =
       filter (\<lambda>w. status w = Open) (getWagersBetweenUsers ws A B False)"
proof -
  have a: "getWagersBetweenUsers ws A B False = filter (\<lambda>w. {from_user w, to_user w} = {A, B}) ws"
    by (simp add: getWagersBetweenUsers_def doubleton_dir)
  have b: "set (getWagersBetweenUsers ws A B False) =
       {w \<in> set ws. from_user w = A \<and> to_user w = B} \<union> {w \<in> set ws. from_user w = B \<and> to_user w = A}"
    by (auto simp: getWagersBetweenUsers_def)
  have c: "getWagersBetweenUsers ws A B True =
       filter (\<lambda>w. status w = Open) (getWagersBetweenUsers ws A B False)"
    by (simp add: getWagersBetweenUsers_def conj_commute)
  from a b c show ?thesis by blast
qed

theorem C7_between_witness:
  "getWagersBetweenUsers
     [mkWager ''1'' ''A'' ''B'' 100 200, resolveWith (mkWager ''2'' ''B'' ''A'' 30 100) To,
      mkWager ''3'' ''A'' ''C'' 7 100] ''A'' ''B'' False
     = [mkWager ''1'' ''A'' ''B'' 100 200, resolveWith (mkWager ''2'' ''B'' ''A'' 30 100) To]
   \<and> getWagersBetweenUsers
     [mkWager ''1'' ''A'' ''B'' 100 200, resolveWith (mkWager ''2'' ''B'' ''A'' 30 100) To,
      mkWager ''3'' ''A'' ''C'' 7 100] ''A'' ''B'' True
     = [mkWager ''1'' ''A'' ''B'' 100 200]"
  using C7_between [of
     "[mkWager ''1'' ''A'' ''B'' 100 200, resolveWith (mkWager ''2'' ''B'' ''A'' 30 100) To,
      mkWager ''3'' ''A'' ''C'' 7 100]" "''A''" "''B''"]
  by (simp add: mkWager_def resolveWith_def doubleton_dir)

section \<open>Win-loss-push record\<close>

lemma record_foldl:
  "foldl (\<lambda>r wager.
           if result wager = Some Push then r\<lparr>pushes := pushes r + 1\<rparr>
           else if from_user wager = u
           then (if result wager = Some From then r\<lparr>wins := wins r + 1\<rparr>
                 else r\<lparr>losses := losses r + 1\<rparr>)
           else (if result wager = Some To then r\<lparr>wins := wins r + 1\<rparr>
                 else r\<lparr>losses := losses r + 1\<rparr>)) r0 xs
   = \<lparr>wins = wins r0 + length (filter (\<lambda>w. result w \<noteq> Some Push \<and>
                 (if from_user w = u then result w = Some From else result w = Some To)) xs),
      losses = losses r0 + length (filter (\<lambda>w. result w \<noteq> Some Push \<and>
                 (if from_user w = u then result w \<noteq> Some From else result w \<noteq> Some To)) xs),
      pushes = pushes r0 + length (filter (\<lambda>w. result w = Some Push) xs)\<rparr>"
  by (induction xs arbitrary: r0) auto

lemma length_filter_three:
  "length (filter (\<lambda>w. \<not> P w \<and> Q w) xs) + length (filter (\<lambda>w. \<not> P w \<and> \<not> Q w) xs)
     + length (filter P xs) = length xs"
  by (induction xs) auto

text \<open>
  C9: for every user u and wager collection, wins + losses + pushes is the number of
  resolved wagers in which u is from_user or to_user: each such wager is counted in
  exactly one tally (pushes when the result is push; otherwise wins when u's side won,
  losses when it did not).
\<close>

theorem C9_record_total:
  "wins (calculateUserRecord ws u) + losses (calculateUserRecord ws u)
     + pushes (calculateUserRecord ws u)
   = length (filter (\<lambda>w. status w = Resolved \<and> (from_user w = u \<or> to_user w = u)) ws)
   \<and> wins (calculateUserRecord ws u) =
       length (filter (\<lambda>w. status w = Resolved \<and> result w \<noteq> Some Push \<and>
          ((from_user w = u \<and> result w = Some From) \<or>
           (from_user w \<noteq> u \<and> to_user w = u \<and> result w = Some To))) ws)
   \<and> pushes (calculateUserRecord ws u) =
       length (filter (\<lambda>w. status w = Resolved \<and> (from_user w = u \<or> to_user w = u)
          \<and> result w = Some Push) ws)"
proof -
  let ?R = "filter (\<lambda>w. status w = Resolved \<and> (from_user w = u \<or> to_user w = u)) ws"
  let ?W = "\<lambda>w. if from_user w = u then result w = Some From else result w = Some To"
  have rec: "calculateUserRecord ws u =
     \<lparr>wins = length (filter (\<lambda>w. result w \<noteq> Some Push \<and> ?W w) ?R),
      losses = length (filter (\<lambda>w. result w \<noteq> Some Push \<and> \<not> ?W w) ?R),
      pushes = length (filter (\<lambda>w. result w = Some Push) ?R)\<rparr>"
    unfolding calculateUserRecord_def Let_def record_foldl
    by (simp cong: if_cong) 
  have total: "wins (calculateUserRecord ws u) + losses (calculateUserRecord ws u)
       + pushes (calculateUserRecord ws u) = length ?R"
    unfolding rec
    using length_filter_three [of "\<lambda>w. result w = Some Push" ?W ?R] by simp
  have w: "wins (calculateUserRecord ws u) =
       length (filter (\<lambda>w. status w = Resolved \<and> result w \<noteq> Some Push \<and>
          ((from_user w = u \<and> result w = Some From) \<or>
           (from_user w \<noteq> u \<and> to_user w = u \<and> result w = Some To))) ws)"
    unfolding rec by (auto intro!: arg_cong [where f = length] filter_cong)
  have p: "pushes (calculateUserRecord ws u) =
       length (filter (\<lambda>w. status w = Resolved \<and> (from_user w = u \<or> to_user w = u)
          \<and> result w = Some Push) ws)"
    unfolding rec by (auto intro!: arg_cong [where f = length] filter_cong)
  from total w p show ?thesis by blast
qed

theorem C9_record_total_witness:
  "calculateUserRecord
     [resolveWith (mkWager ''1'' ''A'' ''B'' 100 150) From,
      resolveWith (mkWager ''2'' ''C'' ''A'' 20 200) To,
      resolveWith (mkWager ''3'' ''A'' ''C'' 20 200) To,
      resolveWith (mkWager ''4'' ''B'' ''A'' 70 100) Push,
      mkWager ''5'' ''A'' ''B'' 40 300,
      resolveWith (mkWager ''6'' ''B'' ''C'' 5 100) From] ''A''
   = \<lparr>wins = 2, losses = 1, pushes = 1\<rparr>
   \<and> wins (calculateUserRecord
     [resolveWith (mkWager ''1'' ''A'' ''B'' 100 150) From,
      resolveWith (mkWager ''2'' ''C'' ''A'' 20 200) To,
      resolveWith (mkWager ''3'' ''A'' ''C'' 20 200) To,
      resolveWith (mkWager ''4'' ''B'' ''A'' 70 100) Push,
      mkWager ''5'' ''A'' ''B'' 40 300,
      resolveWith (mkWager ''6'' ''B'' ''C'' 5 100) From] ''A'') + 1 + 1 = 4"
proof -
  let ?ws = "[resolveWith (mkWager ''1'' ''A'' ''B'' 100 150) From,
      resolveWith (mkWager ''2'' ''C'' ''A'' 20 200) To,
      resolveWith (mkWager ''3'' ''A'' ''C'' 20 200) To,
      resolveWith (mkWager ''4'' ''B'' ''A'' 70 100) Push,
      mkWager ''5'' ''A'' ''B'' 40 300,
      resolveWith (mkWager ''6'' ''B'' ''C'' 5 100) From]"
  have v: "calculateUserRecord ?ws ''A'' = \<lparr>wins = 2, losses = 1, pushes = 1\<rparr>"
    by (simp add: calculateUserRecord_def mkWager_def resolveWith_def)
  have "wins (calculateUserRecord ?ws ''A'') + losses (calculateUserRecord ?ws ''A'')
          + pushes (calculateUserRecord ?ws ''A'') = 4"
    using C9_record_total [of ?ws "''A''"] by (simp add: mkWager_def resolveWith_def)
  with v show ?thesis by simp
qed

section \<open>Resolving a wager (signed-odds variant)\<close>

text \<open>
  C10: resolving is a frame-preserving update. For every wager collection, wager id and
  result r, the resolve operation returns a collection of the same length in which a
  wager with that id has status resolved and result r, with id, from, to, amount, odds
  and description unchanged, and every other wager is unchanged in all fields.
\<close>

theorem C10_resolve_frame:
  "length (handleResolveWager ws wid r) = length ws
   \<and> (\<forall>i < length ws.
        if id_s (ws ! i) = wid
        then handleResolveWager ws wid r ! i =
               \<lparr>id_s = id_s (ws ! i), from_s = from_s (ws ! i), to_s = to_s (ws ! i),
                amount_s = amount_s (ws ! i), odds_s = odds_s (ws ! i),
                description_s = description_s (ws ! i),
                status_s = Resolved, result_s = Some r\<rparr>
        else handleResolveWager ws wid r ! i = ws ! i)"
  by (simp add: handleResolveWager_def)

theorem C10_resolve_frame_witness:
  "length (handleResolveWager [mkWager_s ''1'' ''A'' ''B'' 100 (-110),
       mkWager_s ''2'' ''B'' ''C'' 50 150, mkWager_s ''3'' ''C'' ''A'' 5 100] ''2'' To) = 3
   \<and> handleResolveWager [mkWager_s ''1'' ''A'' ''B'' 100 (-110),
       mkWager_s ''2'' ''B'' ''C'' 50 150, mkWager_s ''3'' ''C'' ''A'' 5 100] ''2'' To ! 0
     = mkWager_s ''1'' ''A'' ''B'' 100 (-110)
   \<and> handleResolveWager [mkWager_s ''1'' ''A'' ''B'' 100 (-110),
       mkWager_s ''2'' ''B'' ''C'' 50 150, mkWager_s ''3'' ''C'' ''A'' 5 100] ''2'' To ! 1
     = \<lparr>id_s = ''2'', from_s = ''B'', to_s = ''C'', amount_s = 50, odds_s = 150,
        description_s = ''bet'', status_s = Resolved, result_s = Some To\<rparr>
   \<and> handleResolveWager [mkWager_s ''1'' ''A'' ''B'' 100 (-110),
       mkWager_s ''2'' ''B'' ''C'' 50 150, mkWager_s ''3'' ''C'' ''A'' 5 100] ''2'' To ! 2
     = mkWager_s ''3'' ''C'' ''A'' 5 100"
proof -
  let ?ws = "[mkWager_s ''1'' ''A'' ''B'' 100 (-110), mkWager_s ''2'' ''B'' ''C'' 50 150,
              mkWager_s ''3'' ''C'' ''A'' 5 100]"
  let ?out = "handleResolveWager ?ws ''2'' To"
  from C10_resolve_frame [of ?ws "''2''" To]
  have len: "length ?out = 3"
    and el: "\<forall>i<3. if id_s (?ws ! i) = ''2''
        then ?out ! i =
               \<lparr>id_s = id_s (?ws ! i), from_s = from_s (?ws ! i), to_s = to_s (?ws ! i),
                amount_s = amount_s (?ws ! i), odds_s = odds_s (?ws ! i),
                description_s = description_s (?ws ! i),
                status_s = Resolved, result_s = Some To\<rparr>
        else ?out ! i = ?ws ! i"
    by simp_all
  have e0: "?out ! 0 = mkWager_s ''1'' ''A'' ''B'' 100 (-110)"
    using el [THEN spec, of 0] by (simp add: mkWager_s_def)
  have e1: "?out ! 1 = \<lparr>id_s = ''2'', from_s = ''B'', to_s = ''C'', amount_s = 50,
       odds_s = 150, description_s = ''bet'', status_s = Resolved, result_s = Some To\<rparr>"
    using el [THEN spec, of 1] by (simp add: mkWager_s_def)
  have e2: "?out ! 2 = mkWager_s ''3'' ''C'' ''A'' 5 100"
    using el [THEN spec, of 2] by (simp add: mkWager_s_def)
  from len e0 e1 e2 show ?thesis by blast
qed

section \<open>Negative odds (signed-odds variant)\<close>






section \<open>Heatmap thresholds\<close>

lemma concat_product:
  "concat (map (\<lambda>r. concat (map (\<lambda>c. g r c) ys)) xs)
     = concat (map (\<lambda>(r, c). g r c) (List.product xs ys))"
  by (induction xs) (simp_all add: comp_def)

lemma concat_guarded:
  "concat (map (\<lambda>p. if P p then (let v = f p in if Q v then [v] else []) else []) ps)
     = filter Q (map f (filter P ps))"
  by (induction ps) (simp_all add: Let_def)

lemma heatmapAmounts_pairs:
  "heatmapAmounts ws =
     filter (\<lambda>x. 0 < x)
       (map (\<lambda>(r, c). amount_c (getCellData ws r c))
          (filter (\<lambda>(r, c). r \<noteq> c) (List.product USERS USERS)))"
proof -
  have "heatmapAmounts ws =
      concat (map (\<lambda>(r, c). if r \<noteq> c
         then (let amt = amount_c (getCellData ws r c) in if amt > 0 then [amt] else [])
         else []) (List.product USERS USERS))"
    unfolding heatmapAmounts_def by (rule concat_product)
  also have "(\<lambda>(r, c). if r \<noteq> c
         then (let amt = amount_c (getCellData ws r c) in if amt > 0 then [amt] else [])
         else [])
     = (\<lambda>p. if (\<lambda>(r, c). r \<noteq> c) p
         then (let v = (\<lambda>(r, c). amount_c (getCellData ws r c)) p in if 0 < v then [v] else [])
         else [])"
    by (auto simp: fun_eq_iff)
  finally show ?thesis by (simp only: concat_guarded)
qed

lemma cell_amount_nonneg:
  assumes "\<forall>w\<in>set ws. 0 \<le> amount w"
  shows "0 \<le> amount_c (getCellData ws r c)"
proof -
  have "0 \<le> sum_list (map amount (filter (\<lambda>w. from_user w = r \<and> to_user w = c \<and> status w = Open) ws))"
    using assms by (intro sum_list_nonneg) auto
  then show ?thesis by (simp add: getCellData_def Let_def foldl_add_sum_list)
qed

lemma heatmapAmounts_nonzero:
  assumes "\<forall>w\<in>set ws. 0 \<le> amount w"
  shows "heatmapAmounts ws =
     filter (\<lambda>x. x \<noteq> 0)
       (map (\<lambda>(r, c). amount_c (getCellData ws r c))
          (filter (\<lambda>(r, c). r \<noteq> c) (List.product USERS USERS)))"
  unfolding heatmapAmounts_pairs
  by (rule filter_cong) (use cell_amount_nonneg [OF assms] in \<open>auto simp: less_le\<close>)

lemma heatmapAmounts_pos: "x \<in> set (heatmapAmounts ws) \<Longrightarrow> 0 < x"
  by (simp add: heatmapAmounts_pairs)

lemma js_or_index:
  assumes "i < length xs" and "xs ! i \<noteq> 0"
  shows "js_or (js_index xs i) d = xs ! i"
  using assms by (simp add: js_or_def js_index_def)

lemma thresholdsOf_index:
  assumes ne: "amounts \<noteq> []" and pos: "\<forall>x\<in>set amounts. 0 < x"
  shows "thresholdsOf amounts =
     \<lparr>low = sort amounts ! (length amounts div 3),
      medium = sort amounts ! (2 * length amounts div 3)\<rparr>"
proof -
  let ?s = "sort amounts" and ?n = "length amounts"
  from ne have n: "0 < ?n" by simp
  have "?n div 3 < ?n" and "?n * 2 div 3 < ?n" using n by arith+
  then have li: "?n div 3 < length ?s" and mi: "?n * 2 div 3 < length ?s" by simp_all
  have nz: "?s ! i \<noteq> 0" if "i < length ?s" for i
  proof -
    from that have "?s ! i \<in> set ?s" by (rule nth_mem)
    with pos show ?thesis by auto
  qed
  have l: "js_or (js_index ?s (?n div 3)) (?s ! 0) = ?s ! (?n div 3)"
    by (rule js_or_index [OF li nz [OF li]])
  have m: "js_or (js_index ?s (?n * 2 div 3)) (?s ! (?n div 3)) = ?s ! (?n * 2 div 3)"
    by (rule js_or_index [OF mi nz [OF mi]])
  show ?thesis using ne l m by (simp add: thresholdsOf_def Let_def mult.commute)
qed

lemma thresholdsOf_order:
  assumes pos: "\<forall>x\<in>set amounts. 0 < x"
  shows "0 \<le> low (thresholdsOf amounts) \<and> low (thresholdsOf amounts) \<le> medium (thresholdsOf amounts)"
proof (cases "amounts = []")
  case True
  then show ?thesis by (simp add: thresholdsOf_def)
next
  case False
  let ?s = "sort amounts" and ?n = "length amounts"
  from False have n: "0 < ?n" by simp
  have "?n div 3 < ?n" and "2 * ?n div 3 < ?n" using n by arith+
  then have li: "?n div 3 < length ?s" and mi: "2 * ?n div 3 < length ?s" by simp_all
  have "?s ! (?n div 3) \<in> set ?s" using li by (rule nth_mem)
  with pos have a: "0 < ?s ! (?n div 3)" by auto
  have b: "?s ! (?n div 3) \<le> ?s ! (2 * ?n div 3)"
    using mi by (intro sorted_nth_mono) simp_all
  from a b show ?thesis by (simp add: thresholdsOf_index [OF False pos])
qed

lemma classify:
  assumes "0 \<le> low th" and "low th \<le> medium th"
  shows "getCellHeatmapClass 0 th = ''''
    \<and> (0 < x \<and> x \<le> low th \<longrightarrow> getCellHeatmapClass x th = ''heat-low'')
    \<and> (low th < x \<and> x \<le> medium th \<longrightarrow> getCellHeatmapClass x th = ''heat-medium'')
    \<and> (medium th < x \<longrightarrow> getCellHeatmapClass x th = ''heat-high'')"
  using assms by (auto simp: getCellHeatmapClass_def)

lemma heatmapExample_amounts: "heatmapAmounts heatmapExample = [10, 10, 100, 30, 20]"
  by code_simp

lemma heatmapExample_thresholds: "heatmapThresholds heatmapExample = \<lparr>low = 10, medium = 30\<rparr>"
  unfolding heatmapThresholds_def heatmapExample_amounts
  by (simp add: thresholdsOf_def js_or_def js_index_def)

lemma heatmapThresholds_empty:
  "heatmapAmounts ws = [] \<Longrightarrow> heatmapThresholds ws = \<lparr>low = 0, medium = 0\<rparr>"
  by (simp add: heatmapThresholds_def thresholdsOf_def)

text \<open>
  C5 (as stated): with thresholds low = 10 and medium = 30 from the cell amounts
  [10,10,20,30,100], the amount 15 is in the low bucket. The classifier puts 15 above
  low, in the medium bucket.
\<close>

theorem C5_heatmap_counterexample:
  "sort (heatmapAmounts heatmapExample) = [10, 10, 20, 30, 100]
   \<and> getCellHeatmapClass 15 (heatmapThresholds heatmapExample) \<noteq> ''heat-low''"
  unfolding heatmapExample_thresholds heatmapExample_amounts
  by (simp add: getCellHeatmapClass_def)

text \<open>
  C5 (amended): for every wager collection, the amounts are the nonzero (positive)
  open-only directional cell amounts over all ordered pairs of distinct roster users;
  with a their ascending sort and n their count, n > 0, the low threshold is the value
  at index n div 3 and the medium threshold the value at index 2n div 3 (both indices are
  in range and the values nonzero, so no fallback is taken), and with n = 0 both
  thresholds are 0; the classifier maps amount
  0 to none, 0 < amount \<le> low to heat-low, low < amount \<le> medium to heat-medium and
  amount > medium to heat-high. For the amounts [10,10,20,30,100]: low = 10,
  medium = 30, and 15 is medium, 30 is medium, 100 is high, 0 is none.
\<close>

theorem C5_heatmap_amended:
  "heatmapAmounts ws =
     filter (\<lambda>x. 0 < x)
       (map (\<lambda>(r, c). amount_c (getCellData ws r c))
          (filter (\<lambda>(r, c). r \<noteq> c) (List.product USERS USERS)))
   \<and> ((\<forall>w\<in>set ws. 0 \<le> amount w) \<longrightarrow>
        heatmapAmounts ws =
          filter (\<lambda>x. x \<noteq> 0)
            (map (\<lambda>(r, c). amount_c (getCellData ws r c))
               (filter (\<lambda>(r, c). r \<noteq> c) (List.product USERS USERS))))
   \<and> (heatmapAmounts ws \<noteq> [] \<longrightarrow>
        low (heatmapThresholds ws)
          = sort (heatmapAmounts ws) ! (length (heatmapAmounts ws) div 3)
        \<and> medium (heatmapThresholds ws)
          = sort (heatmapAmounts ws) ! (2 * length (heatmapAmounts ws) div 3))
   \<and> (heatmapAmounts ws = [] \<longrightarrow> heatmapThresholds ws = \<lparr>low = 0, medium = 0\<rparr>)
   \<and> getCellHeatmapClass 0 (heatmapThresholds ws) = ''''
   \<and> (0 < x \<and> x \<le> low (heatmapThresholds ws) \<longrightarrow>
        getCellHeatmapClass x (heatmapThresholds ws) = ''heat-low'')
   \<and> (low (heatmapThresholds ws) < x \<and> x \<le> medium (heatmapThresholds ws) \<longrightarrow>
        getCellHeatmapClass x (heatmapThresholds ws) = ''heat-medium'')
   \<and> (medium (heatmapThresholds ws) < x \<longrightarrow>
        getCellHeatmapClass x (heatmapThresholds ws) = ''heat-high'')
   \<and> sort (heatmapAmounts heatmapExample) = [10, 10, 20, 30, 100]
   \<and> heatmapThresholds heatmapExample = \<lparr>low = 10, medium = 30\<rparr>
   \<and> getCellHeatmapClass 15 (heatmapThresholds heatmapExample) = ''heat-medium''
   \<and> getCellHeatmapClass 30 (heatmapThresholds heatmapExample) = ''heat-medium''
   \<and> getCellHeatmapClass 100 (heatmapThresholds heatmapExample) = ''heat-high''
   \<and> getCellHeatmapClass 0 (heatmapThresholds heatmapExample) = ''''"
proof -
  have pos: "\<forall>x\<in>set (heatmapAmounts ws). 0 < x"
    by (simp add: heatmapAmounts_pos)
  have idx: "heatmapAmounts ws \<noteq> [] \<longrightarrow>
        low (heatmapThresholds ws)
          = sort (heatmapAmounts ws) ! (length (heatmapAmounts ws) div 3)
        \<and> medium (heatmapThresholds ws)
          = sort (heatmapAmounts ws) ! (2 * length (heatmapAmounts ws) div 3)"
    unfolding heatmapThresholds_def using thresholdsOf_index [OF _ pos] by simp
  have ord: "0 \<le> low (heatmapThresholds ws) \<and> low (heatmapThresholds ws) \<le> medium (heatmapThresholds ws)"
    unfolding heatmapThresholds_def by (rule thresholdsOf_order [OF pos])
  note cl = classify [of "heatmapThresholds ws" x, OF conjunct1 [OF ord] conjunct2 [OF ord]]
  have e1: "sort (heatmapAmounts heatmapExample) = [10, 10, 20, 30, 100]"
    unfolding heatmapExample_amounts by simp
  have e2: "getCellHeatmapClass 15 (heatmapThresholds heatmapExample) = ''heat-medium''"
    and e3: "getCellHeatmapClass 30 (heatmapThresholds heatmapExample) = ''heat-medium''"
    and e4: "getCellHeatmapClass 100 (heatmapThresholds heatmapExample) = ''heat-high''"
    and e5: "getCellHeatmapClass 0 (heatmapThresholds heatmapExample) = ''''"
    unfolding heatmapExample_thresholds by (simp_all add: getCellHeatmapClass_def)
  show ?thesis
    apply (intro conjI)
                apply (rule heatmapAmounts_pairs)
               apply (rule impI, erule heatmapAmounts_nonzero)
              apply (rule idx)
             apply (rule impI, erule heatmapThresholds_empty)
             apply (rule cl [THEN conjunct1])
            apply (rule cl [THEN conjunct2, THEN conjunct1])
           apply (rule cl [THEN conjunct2, THEN conjunct2, THEN conjunct1])
          apply (rule cl [THEN conjunct2, THEN conjunct2, THEN conjunct2])
         apply (rule e1)
        apply (rule heatmapExample_thresholds)
       apply (rule e2)
      apply (rule e3)
     apply (rule e4)
    apply (rule e5)
    done
qed

theorem C5_heatmap_amended_witness:
  "heatmapAmounts heatmapExample =
     filter (\<lambda>x. x \<noteq> 0)
       (map (\<lambda>(r, c). amount_c (getCellData heatmapExample r c))
          (filter (\<lambda>(r, c). r \<noteq> c) (List.product USERS USERS)))
   \<and> low (heatmapThresholds heatmapExample) = 10
   \<and> medium (heatmapThresholds heatmapExample) = 30
   \<and> getCellHeatmapClass 10 (heatmapThresholds heatmapExample) = ''heat-low''
   \<and> getCellHeatmapClass 20 (heatmapThresholds heatmapExample) = ''heat-medium''
   \<and> getCellHeatmapClass 31 (heatmapThresholds heatmapExample) = ''heat-high''"
proof -
  have nonneg: "\<forall>w\<in>set heatmapExample. 0 \<le> amount w"
    by (simp add: heatmapExample_def mkWager_def)
  have ne: "heatmapAmounts heatmapExample \<noteq> []"
    by (simp add: heatmapExample_amounts)
  have s: "sort (heatmapAmounts heatmapExample) = [10, 10, 20, 30, 100]"
    and n: "length (heatmapAmounts heatmapExample) = 5"
    by (simp_all add: heatmapExample_amounts)
  from C5_heatmap_amended [of heatmapExample 10] nonneg ne
  have a: "heatmapAmounts heatmapExample =
     filter (\<lambda>x. x \<noteq> 0)
       (map (\<lambda>(r, c). amount_c (getCellData heatmapExample r c))
          (filter (\<lambda>(r, c). r \<noteq> c) (List.product USERS USERS)))"
    and l: "low (heatmapThresholds heatmapExample) = sort (heatmapAmounts heatmapExample) ! (length (heatmapAmounts heatmapExample) div 3)"
    and m: "medium (heatmapThresholds heatmapExample) = sort (heatmapAmounts heatmapExample) ! (2 * length (heatmapAmounts heatmapExample) div 3)"
    by blast+
  have l': "low (heatmapThresholds heatmapExample) = 10" unfolding l s n by simp
  have m': "medium (heatmapThresholds heatmapExample) = 30" unfolding m s n by simp
  have c1: "getCellHeatmapClass 10 (heatmapThresholds heatmapExample) = ''heat-low''"
    using C5_heatmap_amended [of heatmapExample 10] by (simp add: l' m')
  have c2: "getCellHeatmapClass 20 (heatmapThresholds heatmapExample) = ''heat-medium''"
    using C5_heatmap_amended [of heatmapExample 20] by (simp add: l' m')
  have c3: "getCellHeatmapClass 31 (heatmapThresholds heatmapExample) = ''heat-high''"
    using C5_heatmap_amended [of heatmapExample 31] by (simp add: l' m')
  from a l' m' c1 c2 c3 show ?thesis by (intro conjI)
qed

section \<open>Activity feed\<close>

lemma activityStep_fst:
  "fst (activityStep clock (acc, n) w) = acc @ fst (activityStep clock ([], n) w)"
  by (simp add: activityStep_def Let_def)

lemma activityStep_snd:
  "snd (activityStep clock (acc, n) w) = n + length (filter readsClock [w])"
  by (simp add: activityStep_def Let_def readsClock_def)

lemma activityStep_pair:
  "activityStep clock (acc, n) w =
     (acc @ fst (activityStep clock ([], n) w), n + length (filter readsClock [w]))"
  using activityStep_fst [of clock acc n w] activityStep_snd [of clock acc n w]
  by (simp add: prod_eq_iff)

lemma foldl_activityStep:
  "foldl (activityStep clock) (acc, n) ws =
     (acc @ concat (map (\<lambda>i. fst (activityStep clock
                ([], n + length (filter readsClock (take i ws))) (ws ! i))) [0..<length ws]),
      n + length (filter readsClock ws))"
proof (induction ws rule: rev_induct)
  case Nil
  show ?case by simp
next
  case (snoc w ws)
  have m: "map (\<lambda>i. fst (activityStep clock
                ([], n + length (filter readsClock (take i (ws @ [w])))) ((ws @ [w]) ! i)))
             [0..<length ws]
         = map (\<lambda>i. fst (activityStep clock
                ([], n + length (filter readsClock (take i ws))) (ws ! i))) [0..<length ws]"
    by (rule map_cong) (simp_all add: nth_append)
  let ?A = "acc @ concat (map (\<lambda>i. fst (activityStep clock
                ([], n + length (filter readsClock (take i ws))) (ws ! i))) [0..<length ws])"
  let ?N = "n + length (filter readsClock ws)"
  have "foldl (activityStep clock) (acc, n) (ws @ [w]) = activityStep clock (?A, ?N) w"
    by (simp add: snoc.IH)
  also have "\<dots> = (?A @ fst (activityStep clock ([], ?N) w), ?N + length (filter readsClock [w]))"
    by (rule activityStep_pair)
  finally have l: "foldl (activityStep clock) (acc, n) (ws @ [w]) =
      (?A @ fst (activityStep clock ([], ?N) w), ?N + length (filter readsClock [w]))" .
  have up: "[0..<length (ws @ [w])] = [0..<length ws] @ [length ws]" by simp
  have lastel: "fst (activityStep clock
                ([], n + length (filter readsClock (take (length ws) (ws @ [w]))))
                ((ws @ [w]) ! length ws))
      = fst (activityStep clock ([], ?N) w)"
    by simp
  have r: "concat (map (\<lambda>i. fst (activityStep clock
                ([], n + length (filter readsClock (take i (ws @ [w])))) ((ws @ [w]) ! i)))
             [0..<length (ws @ [w])])
      = concat (map (\<lambda>i. fst (activityStep clock
                ([], n + length (filter readsClock (take i ws))) (ws ! i))) [0..<length ws])
        @ fst (activityStep clock ([], ?N) w)"
    unfolding up map_append concat_append m
    by (simp only: list.map concat.simps append_Nil2 lastel)
  show ?case unfolding l r by simp
qed

lemma activitiesOf_concat:
  "activitiesOf clock ws =
     concat (map (\<lambda>i. fst (activityStep clock
                ([], length (filter readsClock (take i ws))) (ws ! i))) [0..<length ws])"
  by (simp add: activitiesOf_def foldl_activityStep)

lemma activitiesOf_nth:
  assumes "i < length ws"
  shows "set (fst (activityStep clock ([], length (filter readsClock (take i ws))) (ws ! i)))
           \<subseteq> set (activitiesOf clock ws)"
  using assms by (auto simp: activitiesOf_concat)

lemma activityStep_length:
  "length (fst (activityStep clock st w)) =
     length (fst st) + length (filter (\<lambda>w. truthy (created_at w)) [w])
       + length (filter (\<lambda>w. status w = Resolved \<and> result w \<noteq> None) [w])"
  by (auto simp: activityStep_def Let_def)

lemma activitiesOf_length:
  "length (activitiesOf clock ws) =
     length (filter (\<lambda>w. truthy (created_at w)) ws)
     + length (filter (\<lambda>w. status w = Resolved \<and> result w \<noteq> None) ws)"
proof -
  have "length (fst (foldl (activityStep clock) st ws)) =
     length (fst st) + length (filter (\<lambda>w. truthy (created_at w)) ws)
     + length (filter (\<lambda>w. status w = Resolved \<and> result w \<noteq> None) ws)" for st
    by (induction ws rule: rev_induct) (simp_all add: activityStep_length)
  then show ?thesis by (simp add: activitiesOf_def)
qed

lemma sort_desc:
  fixes g :: "'a \<Rightarrow> int"
  shows "sorted_wrt (\<lambda>a b. g b \<le> g a) (sort_key (\<lambda>a. - g a) xs)"
proof -
  have "sorted (map (\<lambda>a. - g a) (sort_key (\<lambda>a. - g a) xs))" by (rule sorted_sort_key)
  then show ?thesis by (simp add: sorted_map)
qed

text \<open>
  C8 (as stated): the feed holds, for each wager, a created event timestamped
  created_at. A wager whose created_at is absent gets no created event: the feed of one
  such open wager is empty.
\<close>

theorem C8_activity_counterexample:
  "deriveActivityItems (\<lambda>s. Some (int (length s))) (\<lambda>k. ''now'')
     [mkWager ''1'' ''A'' ''B'' 100 200] = Some []"
  by (simp add: deriveActivityItems_def activitiesOf_def activityStep_def truthy_def
      mkWager_def)

text \<open>
  C8 (amended): for every wager collection, the merged events contain, for each wager
  whose created_at is present (and not empty), a created event timestamped created_at
  and, for each resolved wager with a result, a resolved event timestamped updated_at
  (falling back to created_at, then the clock reading made for that wager) whose
  outcome word is win for from, loss for to and push for push, framed relative to
  from_user; there are no other events; and when every event's timestamp parses as a
  date, the feed is the merged events sorted by time descending and truncated to the
  first 8.
\<close>

theorem C8_activity_amended:
  "(\<forall>w\<in>set ws. \<forall>t. created_at w = Some t \<and> t \<noteq> [] \<longrightarrow>
      \<lparr>id_a = id_w w @ ''-created'', type_a = Created, user_a = from_user w,
       opponent = to_user w, result_a = None, timestamp = t,
       description_a = description w\<rparr> \<in> set (activitiesOf clock ws))
   \<and> (\<forall>i<length ws. \<forall>r. status (ws ! i) = Resolved \<and> result (ws ! i) = Some r \<longrightarrow>
      \<lparr>id_a = id_w (ws ! i) @ ''-resolved'', type_a = Resolved_a,
       user_a = from_user (ws ! i), opponent = to_user (ws ! i),
       result_a = Some (case r of From \<Rightarrow> Win | To \<Rightarrow> Loss | Push \<Rightarrow> Push_a),
       timestamp =
         (let now = clock (length (filter readsClock (take i ws)));
              fallback = (case created_at (ws ! i) of
                            Some c \<Rightarrow> if c \<noteq> [] then c else now | None \<Rightarrow> now)
          in case updated_at (ws ! i) of
               Some u \<Rightarrow> if u \<noteq> [] then u else fallback | None \<Rightarrow> fallback),
       description_a = description (ws ! i)\<rparr> \<in> set (activitiesOf clock ws))
   \<and> length (activitiesOf clock ws) =
       length (filter (\<lambda>w. \<exists>t. created_at w = Some t \<and> t \<noteq> []) ws)
       + length (filter (\<lambda>w. status w = Resolved \<and> result w \<noteq> None) ws)
   \<and> ((\<forall>a\<in>set (activitiesOf clock ws). getTime (timestamp a) \<noteq> None) \<longrightarrow>
        (\<exists>S. mset S = mset (activitiesOf clock ws)
          \<and> sorted_wrt (\<lambda>a b. the (getTime (timestamp b)) \<le> the (getTime (timestamp a))) S
          \<and> deriveActivityItems getTime clock ws = Some (take 8 S)))"
proof -
  have created: "\<forall>w\<in>set ws. \<forall>t. created_at w = Some t \<and> t \<noteq> [] \<longrightarrow>
      \<lparr>id_a = id_w w @ ''-created'', type_a = Created, user_a = from_user w,
       opponent = to_user w, result_a = None, timestamp = t,
       description_a = description w\<rparr> \<in> set (activitiesOf clock ws)"
  proof (intro ballI allI impI)
    fix w t assume w: "w \<in> set ws" and t: "created_at w = Some t \<and> t \<noteq> []"
    from w obtain i where i: "i < length ws" and wi: "ws ! i = w"
      by (auto simp: in_set_conv_nth)
    from t have "\<lparr>id_a = id_w w @ ''-created'', type_a = Created, user_a = from_user w,
       opponent = to_user w, result_a = None, timestamp = t,
       description_a = description w\<rparr>
        \<in> set (fst (activityStep clock ([], length (filter readsClock (take i ws))) w))"
      by (simp add: activityStep_def Let_def truthy_def)
    with activitiesOf_nth [OF i, of clock] wi
    show "\<lparr>id_a = id_w w @ ''-created'', type_a = Created, user_a = from_user w,
       opponent = to_user w, result_a = None, timestamp = t,
       description_a = description w\<rparr> \<in> set (activitiesOf clock ws)"
      by auto
  qed
  have resolved: "\<forall>i<length ws. \<forall>r. status (ws ! i) = Resolved \<and> result (ws ! i) = Some r \<longrightarrow>
      \<lparr>id_a = id_w (ws ! i) @ ''-resolved'', type_a = Resolved_a,
       user_a = from_user (ws ! i), opponent = to_user (ws ! i),
       result_a = Some (case r of From \<Rightarrow> Win | To \<Rightarrow> Loss | Push \<Rightarrow> Push_a),
       timestamp =
         (let now = clock (length (filter readsClock (take i ws)));
              fallback = (case created_at (ws ! i) of
                            Some c \<Rightarrow> if c \<noteq> [] then c else now | None \<Rightarrow> now)
          in case updated_at (ws ! i) of
               Some u \<Rightarrow> if u \<noteq> [] then u else fallback | None \<Rightarrow> fallback),
       description_a = description (ws ! i)\<rparr> \<in> set (activitiesOf clock ws)"
  proof (intro allI impI)
    fix i r assume i: "i < length ws"
      and r: "status (ws ! i) = Resolved \<and> result (ws ! i) = Some r"
    let ?w = "ws ! i"
    let ?e = "\<lparr>id_a = id_w ?w @ ''-resolved'', type_a = Resolved_a,
       user_a = from_user ?w, opponent = to_user ?w,
       result_a = Some (case r of From \<Rightarrow> Win | To \<Rightarrow> Loss | Push \<Rightarrow> Push_a),
       timestamp =
         (let now = clock (length (filter readsClock (take i ws)));
              fallback = (case created_at ?w of
                            Some c \<Rightarrow> if c \<noteq> [] then c else now | None \<Rightarrow> now)
          in case updated_at ?w of
               Some u \<Rightarrow> if u \<noteq> [] then u else fallback | None \<Rightarrow> fallback),
       description_a = description ?w\<rparr>"
    from r have "?e \<in> set (fst (activityStep clock
                     ([], length (filter readsClock (take i ws))) ?w))"
      by (cases r)
         (auto simp: activityStep_def Let_def truthy_def js_or_str_def split: option.splits)
    with activitiesOf_nth [OF i, of clock] show "?e \<in> set (activitiesOf clock ws)"
      by auto
  qed
  have tr: "(\<lambda>w. truthy (created_at w)) = (\<lambda>w. \<exists>t. created_at w = Some t \<and> t \<noteq> [])"
    by (auto simp: truthy_def fun_eq_iff split: option.splits)
  have len: "length (activitiesOf clock ws) =
       length (filter (\<lambda>w. \<exists>t. created_at w = Some t \<and> t \<noteq> []) ws)
       + length (filter (\<lambda>w. status w = Resolved \<and> result w \<noteq> None) ws)"
    using activitiesOf_length [of clock ws] unfolding tr .
  let ?S = "sort_key (\<lambda>a. - the (getTime (timestamp a))) (activitiesOf clock ws)"
  have sorted: "(\<forall>a\<in>set (activitiesOf clock ws). getTime (timestamp a) \<noteq> None) \<longrightarrow>
        (\<exists>S. mset S = mset (activitiesOf clock ws)
          \<and> sorted_wrt (\<lambda>a b. the (getTime (timestamp b)) \<le> the (getTime (timestamp a))) S
          \<and> deriveActivityItems getTime clock ws = Some (take 8 S))"
  proof
    assume parse: "\<forall>a\<in>set (activitiesOf clock ws). getTime (timestamp a) \<noteq> None"
    then have "list_all (\<lambda>a. getTime (timestamp a) \<noteq> None) (activitiesOf clock ws)"
      by (simp add: list_all_iff)
    then have d: "deriveActivityItems getTime clock ws = Some (take 8 ?S)"
      by (simp add: deriveActivityItems_def Let_def)
    have "mset ?S = mset (activitiesOf clock ws)
          \<and> sorted_wrt (\<lambda>a b. the (getTime (timestamp b)) \<le> the (getTime (timestamp a))) ?S
          \<and> deriveActivityItems getTime clock ws = Some (take 8 ?S)"
      using sort_desc [of "\<lambda>a. the (getTime (timestamp a))" "activitiesOf clock ws"] d
      by simp
    then show "\<exists>S. mset S = mset (activitiesOf clock ws)
          \<and> sorted_wrt (\<lambda>a b. the (getTime (timestamp b)) \<le> the (getTime (timestamp a))) S
          \<and> deriveActivityItems getTime clock ws = Some (take 8 S)"
      by (rule exI)
  qed
  from created resolved len sorted show ?thesis by (intro conjI)
qed

theorem C8_activity_amended_witness:
  "\<lparr>id_a = ''1-created'', type_a = Created, user_a = ''A'', opponent = ''B'',
     result_a = None, timestamp = ''t'', description_a = ''bet''\<rparr>
     \<in> set (activitiesOf (\<lambda>k. if k = 0 then ''first'' else ''second'')
         [stamped (mkWager ''1'' ''A'' ''B'' 100 200) ''t'' ''tt'',
          resolveWith (mkWager ''2'' ''A'' ''C'' 100 200) To,
          resolveWith (mkWager ''3'' ''B'' ''C'' 100 200) From])
   \<and> \<lparr>id_a = ''3-resolved'', type_a = Resolved_a, user_a = ''B'', opponent = ''C'',
     result_a = Some Win, timestamp = ''second'', description_a = ''bet''\<rparr>
     \<in> set (activitiesOf (\<lambda>k. if k = 0 then ''first'' else ''second'')
         [stamped (mkWager ''1'' ''A'' ''B'' 100 200) ''t'' ''tt'',
          resolveWith (mkWager ''2'' ''A'' ''C'' 100 200) To,
          resolveWith (mkWager ''3'' ''B'' ''C'' 100 200) From])
   \<and> length (activitiesOf (\<lambda>k. if k = 0 then ''first'' else ''second'')
         [stamped (mkWager ''1'' ''A'' ''B'' 100 200) ''t'' ''tt'',
          resolveWith (mkWager ''2'' ''A'' ''C'' 100 200) To,
          resolveWith (mkWager ''3'' ''B'' ''C'' 100 200) From]) = 3
   \<and> (\<exists>S. mset S = mset (activitiesOf (\<lambda>k. if k = 0 then ''first'' else ''second'')
         [stamped (mkWager ''1'' ''A'' ''B'' 100 200) ''t'' ''tt'',
          resolveWith (mkWager ''2'' ''A'' ''C'' 100 200) To,
          resolveWith (mkWager ''3'' ''B'' ''C'' 100 200) From])
        \<and> sorted_wrt (\<lambda>a b. int (length (timestamp b)) \<le> int (length (timestamp a))) S
        \<and> deriveActivityItems (\<lambda>s. Some (int (length s)))
            (\<lambda>k. if k = 0 then ''first'' else ''second'')
            [stamped (mkWager ''1'' ''A'' ''B'' 100 200) ''t'' ''tt'',
             resolveWith (mkWager ''2'' ''A'' ''C'' 100 200) To,
             resolveWith (mkWager ''3'' ''B'' ''C'' 100 200) From] = Some (take 8 S))"
proof -
  let ?clock = "\<lambda>k::nat. if k = 0 then ''first'' else ''second''"
  let ?gt = "\<lambda>s::string. Some (int (length s))"
  let ?w1 = "stamped (mkWager ''1'' ''A'' ''B'' 100 200) ''t'' ''tt''"
  let ?ws = "[?w1, resolveWith (mkWager ''2'' ''A'' ''C'' 100 200) To,
              resolveWith (mkWager ''3'' ''B'' ''C'' 100 200) From]"
  note T = C8_activity_amended [of ?ws ?clock ?gt]
  have e1: "\<lparr>id_a = ''1-created'', type_a = Created, user_a = ''A'', opponent = ''B'',
     result_a = None, timestamp = ''t'', description_a = ''bet''\<rparr>
     \<in> set (activitiesOf ?clock ?ws)"
    using T [THEN conjunct1, THEN bspec, of ?w1, THEN spec, of "''t''"]
    by (simp add: stamped_def mkWager_def)
  have e2: "\<lparr>id_a = ''3-resolved'', type_a = Resolved_a, user_a = ''B'', opponent = ''C'',
     result_a = Some Win, timestamp = ''second'', description_a = ''bet''\<rparr>
     \<in> set (activitiesOf ?clock ?ws)"
    using T [THEN conjunct2, THEN conjunct1, THEN spec, of 2, THEN mp, THEN spec, of From]
    by (simp add: stamped_def mkWager_def resolveWith_def readsClock_def truthy_def)
  have e3: "length (activitiesOf ?clock ?ws) = 3"
    using T [THEN conjunct2, THEN conjunct2, THEN conjunct1]
    by (simp add: stamped_def mkWager_def resolveWith_def)
  have e4: "\<exists>S. mset S = mset (activitiesOf ?clock ?ws)
        \<and> sorted_wrt (\<lambda>a b. int (length (timestamp b)) \<le> int (length (timestamp a))) S
        \<and> deriveActivityItems ?gt ?clock ?ws = Some (take 8 S)"
    using T [THEN conjunct2, THEN conjunct2, THEN conjunct2] by simp
  from e1 e2 e3 e4 show ?thesis by (intro conjI)
qed

text \<open>The feed of these three wagers, and a feed whose order the model does not give.\<close>

lemma deriveActivityItems_example:
  "map_option (map (\<lambda>a. (id_a a, timestamp a)))
     (deriveActivityItems (\<lambda>s. Some (int (length s)))
        (\<lambda>k. if k = 0 then ''first'' else ''second'')
        [stamped (mkWager ''1'' ''A'' ''B'' 100 200) ''t'' ''tt'',
         resolveWith (mkWager ''2'' ''A'' ''C'' 100 200) To,
         resolveWith (mkWager ''3'' ''B'' ''C'' 100 200) From])
   = Some [(''3-resolved'', ''second''), (''2-resolved'', ''first''), (''1-created'', ''t'')]"
  by (simp add: deriveActivityItems_def activitiesOf_def activityStep_def truthy_def
      js_or_str_def readsClock_def stamped_def mkWager_def resolveWith_def)

lemma deriveActivityItems_unparsed:
  "deriveActivityItems (\<lambda>s. if s = ''bad'' then None else Some (int (length s)))
     (\<lambda>k. ''now'')
     [stamped (mkWager ''1'' ''A'' ''B'' 100 200) ''bad'' ''tt'',
      stamped (mkWager ''2'' ''A'' ''C'' 100 200) ''ttt'' ''tt''] = None"
  by (simp add: deriveActivityItems_def activitiesOf_def activityStep_def truthy_def
      stamped_def mkWager_def)

end
